theory Spec2Isabelle
  imports Main
begin

section \<open>The process: outcomes, observable events, the world\<close>

text \<open>
  \<^verbatim>\<open>sign.ts\<close> is a command-line script: it reads its arguments, resolves the
  Extension Warehouse credentials, archives the extension folder and drives a browser
  through the signing pages. Everything it does is an effect, so the model threads a
  process state through every function and records each effect as an event.

  A JavaScript value of type \<^verbatim>\<open>string | undefined\<close> is a \<open>string option\<close>
  (\<open>None\<close> is \<^verbatim>\<open>undefined\<close>).
\<close>

datatype level = Log | Info | Warn | Error

text \<open>An element handle, named by the step that located it and by its selector.\<close>

datatype handle = Handle string string

text \<open>
  The calls into the file system, the browser driver and the download library that can
  throw. \<open>FileChooser\<close> is the pair \<^verbatim>\<open>Promise.all([page.waitForFileChooser(),
  browseButton.click()])\<close>, which rejects as soon as one of the two does.
\<close>

datatype op =
    MkdirSync string
  | Launch bool
  | NewPage
  | Goto string
  | WaitFor string
  | Click handle
  | TypeText handle "string option"
  | PageClick string
  | Delay nat
  | FileChooser handle
  | Accept string
  | Evaluate handle
  | Download string string string
  | Close

datatype event =
    Console level string
  | Dotenv string
  | Prompt string
  | Archive string string
  | SetDefaultTimeout int
  | Call op "string option"

text \<open>
  How a function ends: it returns a value, the process is ended by
  \<^verbatim>\<open>process.exit(code)\<close>, or an exception is thrown and reaches the caller.
\<close>

datatype 'a outcome = Returned 'a | Exited int | Thrown string

record pstate =
  trace :: "event list"
  tick :: nat

type_synonym 'a io = "pstate \<Rightarrow> 'a outcome \<times> pstate"

text \<open>
  The world is everything the script reads: the parsed arguments (\<^verbatim>\<open>argv\<close>), the
  dotenv file and the environment it fills, the operator's answers to the prompts, the
  file system, the browser driver and the portal. \<open>faults w n tr c\<close> is the error that
  the \<open>n\<close>-th call of the run, the call \<open>c\<close>, throws when it is made after the events
  \<open>tr\<close> (\<open>None\<close>: it succeeds). The driver and the portal may thus answer according to
  everything the run did before, in particular to what it typed. The file system answers
  are indexed by the call counter, since a directory created by the run may change them.
\<close>

record world =
  argv_path :: string
  argv_env :: "string option"
  argv_username :: string
  argv_password :: string
  argv_output :: "string option"
  argv_headless :: bool
  argv_timeout :: int
  dotenv_error :: "string \<Rightarrow> string option"
  process_env :: "string \<Rightarrow> string option"
  prompt_answer :: "string \<Rightarrow> string option"
  fs_existsSync :: "nat \<Rightarrow> string \<Rightarrow> bool"
  fs_isDirectory :: "nat \<Rightarrow> string \<Rightarrow> bool"
  faults :: "nat \<Rightarrow> event list \<Rightarrow> op \<Rightarrow> string option"
  link_href :: string

definition start :: pstate where
  "start = \<lparr>trace = [], tick = 0\<rparr>"

definition ret :: "'a \<Rightarrow> 'a io" where
  "ret x s = (Returned x, s)"

definition and_then :: "'a io \<Rightarrow> ('a \<Rightarrow> 'b io) \<Rightarrow> 'b io" where
  "and_then m f s =
     (case m s of
        (Returned x, s') \<Rightarrow> f x s'
      | (Exited c, s') \<Rightarrow> (Exited c, s')
      | (Thrown e, s') \<Rightarrow> (Thrown e, s'))"

definition try_catch :: "'a io \<Rightarrow> (string \<Rightarrow> 'a io) \<Rightarrow> 'a io" where
  "try_catch m h s =
     (case m s of
        (Thrown e, s') \<Rightarrow> h e s'
      | (Returned x, s') \<Rightarrow> (Returned x, s')
      | (Exited c, s') \<Rightarrow> (Exited c, s'))"

definition throw :: "string \<Rightarrow> 'a io" where
  "throw e s = (Thrown e, s)"

definition process_exit :: "int \<Rightarrow> 'a io" where
  "process_exit c s = (Exited c, s)"

definition emit :: "event \<Rightarrow> unit io" where
  "emit ev s = (Returned (), s\<lparr>trace := trace s @ [ev]\<rparr>)"

definition console :: "level \<Rightarrow> string \<Rightarrow> unit io" where
  "console l msg = emit (Console l msg)"

text \<open>
  A call that can throw: it is recorded with its result, and returns \<open>v\<close> when the
  world lets it succeed.
\<close>

definition call :: "world \<Rightarrow> op \<Rightarrow> 'a \<Rightarrow> 'a io" where
  "call w c v s =
     (case faults w (tick s) (trace s) c of
        None \<Rightarrow> (Returned v, \<lparr>trace = trace s @ [Call c None], tick = Suc (tick s)\<rparr>)
      | Some e \<Rightarrow> (Thrown e, \<lparr>trace = trace s @ [Call c (Some e)], tick = Suc (tick s)\<rparr>))"

text \<open>JavaScript's \<^verbatim>\<open>!x\<close> on a \<^verbatim>\<open>string | undefined\<close>.\<close>

definition falsy :: "string option \<Rightarrow> bool" where
  "falsy x = (case x of None \<Rightarrow> True | Some v \<Rightarrow> v = [])"


section \<open>Node's \<^verbatim>\<open>path\<close> module (POSIX)\<close>

text \<open>
  \<^verbatim>\<open>path.dirname\<close>, \<^verbatim>\<open>path.basename\<close>, \<^verbatim>\<open>path.parse(p).name\<close> and
  \<^verbatim>\<open>path.join\<close> belong to Node, not to the script; they are modelled after Node's
  POSIX implementation, on strings with \<open>/\<close> as the only separator.
\<close>

definition is_sep :: "char \<Rightarrow> bool" where
  "is_sep c = (c = CHR ''/'')"

definition not_sep :: "char \<Rightarrow> bool" where
  "not_sep c = (c \<noteq> CHR ''/'')"

text \<open>
  \<open>path.dirname\<close>: scanning from the right down to index 1, skip the trailing
  separators and the last component; what is left of the separator found there is the
  directory. Index 0 only decides between \<open>/\<close> and \<open>.\<close>.
\<close>

definition path_dirname :: "string \<Rightarrow> string" where
  "path_dirname p =
     (case p of
        [] \<Rightarrow> ''.''
      | c # cs \<Rightarrow>
          (let r = dropWhile not_sep (dropWhile is_sep (rev cs))
           in if r = [] then (if is_sep c then ''/'' else ''.'')
              else if is_sep c \<and> length r = 1 then ''//''
              else take (length r) p))"

text \<open>The last component of a path, trailing separators skipped.\<close>

definition last_part :: "string \<Rightarrow> string" where
  "last_part p = rev (takeWhile not_sep (dropWhile is_sep (rev p)))"

definition trailing_seps :: "string \<Rightarrow> string" where
  "trailing_seps p = takeWhile is_sep (rev p)"

text \<open>
  \<open>path.basename(p, ext)\<close>: the last component, without \<open>ext\<close> when it ends with it
  and is longer than it. Node compares \<open>ext\<close> from the right while it scans, which
  leaves two irregular cases: a path equal to \<open>ext\<close> gives the empty string, and a last
  component that is a proper suffix of \<open>ext\<close> is returned with the path's trailing
  separators.
\<close>

definition ends_with :: "string \<Rightarrow> string \<Rightarrow> bool" where
  "ends_with b ext = (length ext \<le> length b \<and> drop (length b - length ext) b = ext)"

definition path_basename :: "string \<Rightarrow> string \<Rightarrow> string" where
  "path_basename p ext =
     (let b = last_part p in
      if ext = [] \<or> length p < length ext then b
      else if ext = p then []
      else if b = ext then b
      else if ends_with b ext then take (length b - length ext) b
      else if ends_with ext b then b @ trailing_seps p
      else b)"

text \<open>
  \<open>path.parse(p).name\<close>: the last component up to its last dot; a component with no
  dot, with its only dot in front, or equal to \<open>..\<close> has no extension. Node recognises
  \<open>..\<close> by the position of its dot after the last separator it has scanned, and it does
  not scan the root's separator: directly under the root, \<open>..\<close> is split like any other
  name, into the name \<open>.\<close> and the extension \<open>.\<close>.
\<close>

definition path_parse_name :: "string \<Rightarrow> string" where
  "path_parse_name p =
     (let b = last_part p;
          stem = rev (drop 1 (dropWhile (\<lambda>c. c \<noteq> CHR ''.'') (rev b)));
          under_root = (length (dropWhile not_sep (dropWhile is_sep (rev p))) = 1)
      in if CHR ''.'' \<notin> set b \<or> stem = [] \<or> (b = ''..'' \<and> \<not> under_root) then b
         else stem)"

fun split_path :: "string \<Rightarrow> string list" where
  "split_path [] = [[]]"
| "split_path (c # cs) =
     (if is_sep c then [] # split_path cs
      else (case split_path cs of
              [] \<Rightarrow> [[c]]
            | seg # segs \<Rightarrow> (c # seg) # segs))"

text \<open>
  \<open>normalizeString\<close>: empty components and \<open>.\<close> are dropped, \<open>..\<close> removes the
  component before it, or stays when there is none to remove and the path is relative.
  The accumulator holds the components kept so far, last first.
\<close>

fun normalize_parts :: "bool \<Rightarrow> string list \<Rightarrow> string list \<Rightarrow> string list" where
  "normalize_parts allowAboveRoot acc [] = rev acc"
| "normalize_parts allowAboveRoot acc (seg # segs) =
     (if seg = [] \<or> seg = ''.'' then normalize_parts allowAboveRoot acc segs
      else if seg = ''..'' then
        (case acc of
           [] \<Rightarrow> normalize_parts allowAboveRoot (if allowAboveRoot then [''..''] else []) segs
         | a # as \<Rightarrow>
             if a = ''..'' then normalize_parts allowAboveRoot (if allowAboveRoot then ''..'' # acc else acc) segs
             else normalize_parts allowAboveRoot as segs)
      else normalize_parts allowAboveRoot (seg # acc) segs)"

fun join_with_sep :: "string list \<Rightarrow> string" where
  "join_with_sep [] = []"
| "join_with_sep [x] = x"
| "join_with_sep (x # y # ys) = x @ ''/'' @ join_with_sep (y # ys)"

definition path_normalize :: "string \<Rightarrow> string" where
  "path_normalize p =
     (if p = [] then ''.''
      else
        (let isAbsolute = is_sep (hd p);
             trailingSeparator = is_sep (last p);
             q = join_with_sep (normalize_parts (\<not> isAbsolute) [] (split_path p))
         in if q = [] then
              (if isAbsolute then ''/'' else if trailingSeparator then ''./'' else ''.'')
            else (if isAbsolute then ''/'' else []) @ q
                 @ (if trailingSeparator then ''/'' else [])))"

definition path_join :: "string list \<Rightarrow> string" where
  "path_join args =
     (let parts = filter (\<lambda>a. a \<noteq> []) args
      in if parts = [] then ''.'' else path_normalize (join_with_sep parts))"


section \<open>The script\<close>

subsection \<open>\<^verbatim>\<open>search\<close>\<close>

text \<open>
  \<^verbatim>\<open>
  async function search(targetName, page, selector) {
      console.log(`Searching ${targetName}...`);
      try { return await page.waitFor(selector, {visible: true}); }
      catch (e) { console.error(`cannot find ${targetName}: ${e}`); process.exit(1); }
  }
  \<close>
\<close>

definition search :: "string \<Rightarrow> world \<Rightarrow> string \<Rightarrow> handle io" where
  "search targetName page selector =
     and_then (console Log (''Searching '' @ targetName @ ''...'')) (\<lambda>_.
     try_catch (call page (WaitFor selector) (Handle targetName selector))
       (\<lambda>e. and_then (console Error (''cannot find '' @ targetName @ '': '' @ e)) (\<lambda>_.
            process_exit 1)))"

subsection \<open>\<^verbatim>\<open>getCredentials\<close>\<close>

text \<open>
  \<^verbatim>\<open>config({path: envPath})\<close> loads the dotenv file into \<^verbatim>\<open>process.env\<close> and
  returns an object whose \<^verbatim>\<open>error\<close> is set when the file cannot be read;
  \<open>process_env w\<close> is the environment as it stands after that call.
  \<^verbatim>\<open>prompts\<close> asks the operator one question and resolves to an object whose
  field is \<^verbatim>\<open>undefined\<close> when the operator cancels.
\<close>

definition config :: "world \<Rightarrow> string \<Rightarrow> string option io" where
  "config w envPath = and_then (emit (Dotenv envPath)) (\<lambda>_. ret (dotenv_error w envPath))"

definition prompts :: "world \<Rightarrow> string \<Rightarrow> string option io" where
  "prompts w name = and_then (emit (Prompt name)) (\<lambda>_. ret (prompt_answer w name))"

definition getCredentials :: "world \<Rightarrow> (string option \<times> string option) io" where
  "getCredentials w =
     and_then
       (case argv_env w of
          None \<Rightarrow> ret (Some (argv_username w), Some (argv_password w))
        | Some env \<Rightarrow>
            (let envPath = (if length env > 0 then env else ''.env'') in
             and_then (config w envPath) (\<lambda>envFound.
             case envFound of
               Some err \<Rightarrow>
                 and_then
                   (console Error
                      (''Specified --env option but cannot load .env ('' @ err @ '')''))
                   (\<lambda>_. process_exit 1)
             | None \<Rightarrow>
                 if falsy (process_env w ''EW_USERNAME'') then
                   and_then
                     (console Error
                        ''Specified --env option but the EW_USERNAME variable is missing'')
                     (\<lambda>_. process_exit 1)
                 else if falsy (process_env w ''EW_PASSWORD'') then
                   and_then
                     (console Error
                        ''`Specified --env option but the EW_PASSWORD variable is missing'')
                     (\<lambda>_. process_exit 1)
                 else ret (process_env w ''EW_USERNAME'', process_env w ''EW_PASSWORD''))))
       (\<lambda>(username, password).
     and_then (if falsy username then prompts w ''username'' else ret username) (\<lambda>username.
     and_then (if falsy password then prompts w ''password'' else ret password) (\<lambda>password.
     ret (username, password))))"

text \<open>
  The second copy of the script in the repository (\<^verbatim>\<open>src/unnamed/part_000\<close>) has the
  same function with \<^verbatim>\<open>--env\<close> as a boolean option: \<^verbatim>\<open>config()\<close> is called
  without a path and loads \<^verbatim>\<open>.env\<close> from the working directory. The option is the
  first argument here.
\<close>

definition getCredentials_part_000 ::
  "bool \<Rightarrow> world \<Rightarrow> (string option \<times> string option) io" where
  "getCredentials_part_000 env w =
     and_then
       (if env then
          and_then (config w ''.env'') (\<lambda>envFound.
          case envFound of
            Some err \<Rightarrow>
              and_then
                (console Error
                   (''Specified --env option but cannot load .env ('' @ err @ '')''))
                (\<lambda>_. process_exit 1)
          | None \<Rightarrow>
              if falsy (process_env w ''EW_USERNAME'') then
                and_then
                  (console Error
                     ''Specified --env option but the EW_USERNAME variable is missing'')
                  (\<lambda>_. process_exit 1)
              else if falsy (process_env w ''EW_PASSWORD'') then
                and_then
                  (console Error
                     ''`Specified --env option but the EW_PASSWORD variable is missing'')
                  (\<lambda>_. process_exit 1)
              else ret (process_env w ''EW_USERNAME'', process_env w ''EW_PASSWORD''))
        else ret (Some (argv_username w), Some (argv_password w)))
       (\<lambda>(username, password).
     and_then (if falsy username then prompts w ''username'' else ret username) (\<lambda>username.
     and_then (if falsy password then prompts w ''password'' else ret password) (\<lambda>password.
     ret (username, password))))"

subsection \<open>\<^verbatim>\<open>zip\<close>\<close>

text \<open>
  The two file system tests read the file system as it is when they run.
  \<^verbatim>\<open>lstatSync\<close> is only reached for a path that exists. The archiver writes the
  folder into the file at \<open>rbzPath\<close>; its warnings and errors arrive in callbacks after
  \<^verbatim>\<open>zip\<close> has returned and are not part of the model.

  \<^verbatim>\<open>path.dirname(output)\<close> throws a \<^verbatim>\<open>TypeError\<close> when \<open>output\<close> is
  \<^verbatim>\<open>undefined\<close>: Node validates that its argument is a string.
\<close>

definition existsSync :: "world \<Rightarrow> string \<Rightarrow> bool io" where
  "existsSync w p s = (Returned (fs_existsSync w (tick s) p), s)"

definition lstatSync_isDirectory :: "world \<Rightarrow> string \<Rightarrow> bool io" where
  "lstatSync_isDirectory w p s = (Returned (fs_isDirectory w (tick s) p), s)"

definition invalid_arg_type :: string where
  \<open>invalid_arg_type =
     ''TypeError [ERR_INVALID_ARG_TYPE]: The "path" argument must be of type string. Received undefined''\<close>

text \<open>
  The archive's path, as \<^verbatim>\<open>zip\<close> computes it from the output path:
  \<^verbatim>\<open>`${path.join(path.dirname(output), path.parse(output).name)}_not_signed.rbz`\<close>.
\<close>

definition rbzPath_of :: "string \<Rightarrow> string" where
  "rbzPath_of output =
     path_join [path_dirname output, path_parse_name output] @ ''_not_signed.rbz''"

definition zip_ext :: "world \<Rightarrow> string option \<Rightarrow> string io" where
  \<open>zip_ext w output =
     and_then (existsSync w (argv_path w)) (\<lambda>ex.
     and_then (if ex then lstatSync_isDirectory w (argv_path w) else ret False) (\<lambda>isDir.
     and_then
       (if \<not> ex \<or> \<not> isDir then
          and_then
            (console Error (''The target path "'' @ argv_path w @ ''" is not a directory''))
            (\<lambda>_. process_exit 0)
        else ret ()) (\<lambda>_.
     case output of
       None \<Rightarrow> throw invalid_arg_type
     | Some out \<Rightarrow>
         (let rbzPath = rbzPath_of out in
          and_then (emit (Archive (argv_path w) rbzPath)) (\<lambda>_.
          and_then (console Info (''The extension has been archived in "'' @ rbzPath @ ''"''))
            (\<lambda>_.
          ret rbzPath))))))\<close>

subsection \<open>\<^verbatim>\<open>sign\<close>\<close>

text \<open>
  The destination of the download, as \<^verbatim>\<open>sign\<close> computes it from the archive's path:
  \<^verbatim>\<open>path.join(path.dirname(rbzPath),
  `${path.basename(rbzPath, '_not_signed.rbz')}_signed.rbz`)\<close>.
\<close>

definition outputPath_of :: "string \<Rightarrow> string" where
  "outputPath_of rbzPath =
     path_join [path_dirname rbzPath,
                path_basename rbzPath ''_not_signed.rbz'' @ ''_signed.rbz'']"

definition sign :: "world \<Rightarrow> string \<Rightarrow> string option \<Rightarrow> string option \<Rightarrow> unit io" where
  \<open>sign w rbzPath username password =
     and_then (console Info ''Starting the signing process...'') (\<lambda>_.
     and_then (call w (Launch (argv_headless w)) ()) (\<lambda>_.
     and_then (call w NewPage ()) (\<lambda>_.
     and_then (call w (Goto ''https://extensions.sketchup.com/extension/sign'') ()) (\<lambda>_.
     and_then (emit (SetDefaultTimeout (argv_timeout w))) (\<lambda>_.
     and_then (search ''sign in button'' w ''.intro-section button'') (\<lambda>signinButton.
     and_then (call w (Click signinButton) ()) (\<lambda>_.
     and_then (search ''e-mail input'' w ''input[id=email]'') (\<lambda>emailIntput.
     and_then (call w (TypeText emailIntput username) ()) (\<lambda>_.
     and_then (call w (PageClick ''input[id=next]'') ()) (\<lambda>_.
     and_then (search ''password input'' w ''input[id=password]'') (\<lambda>passwordInput.
     and_then (call w (TypeText passwordInput password) ()) (\<lambda>_.
     and_then (call w (PageClick ''input[id=submit]'') ()) (\<lambda>_.
     and_then (search ''sign button'' w ''.intro-section button'') (\<lambda>signButton.
     and_then (call w (Click signButton) ()) (\<lambda>_.
     and_then (call w (Delay 10000) ()) (\<lambda>_.
     and_then (search ''browse button'' w ''label[for=file]'') (\<lambda>browseButton.
     and_then (call w (FileChooser browseButton) ()) (\<lambda>_.
     and_then (call w (Accept rbzPath) ()) (\<lambda>_.
     and_then (search ''next button 1'' w ''.md-modal:nth-child(1) button.primary'')
       (\<lambda>nextButton.
     and_then (call w (Click nextButton) ()) (\<lambda>_.
     and_then (search ''next button 2'' w ''.md-modal:nth-child(2) button.primary'')
       (\<lambda>nextButton2.
     and_then (call w (Click nextButton2) ()) (\<lambda>_.
     and_then (search ''download link'' w ''a.link-button'') (\<lambda>downloadButton.
     and_then (call w (Evaluate downloadButton) (link_href w)) (\<lambda>downloadUrl.
     and_then (console Log (''Downloading '' @ downloadUrl @ ''...'')) (\<lambda>_.
     (let outputPath = outputPath_of rbzPath in
     and_then
       (try_catch
          (call w (Download downloadUrl (path_dirname outputPath)
                     (path_basename outputPath [])) ())
          (\<lambda>_. console Error ''Download failed!'')) (\<lambda>_.
     and_then (console Info (''Downloaded to "'' @ outputPath @ ''"'')) (\<lambda>_.
     and_then (call w Close ()) (\<lambda>_.
     ret ()))))))))))))))))))))))))))))))\<close>

subsection \<open>\<^verbatim>\<open>main\<close>\<close>

definition main :: "world \<Rightarrow> unit io" where
  "main w =
     (let output = argv_output w in
      and_then
        (case output of
           None \<Rightarrow> ret ()
         | Some out \<Rightarrow>
             if out = [] then ret ()
             else
               (let outputDir = path_dirname out in
                and_then (existsSync w outputDir) (\<lambda>ex.
                if \<not> ex then call w (MkdirSync outputDir) () else ret ())))
        (\<lambda>_.
      and_then (getCredentials w) (\<lambda>(username, password).
      and_then (zip_ext w output) (\<lambda>rbzPath.
      sign w rbzPath username password))))"


section \<open>Observations on a run\<close>

text \<open>How often the run calls \<^verbatim>\<open>browser.close()\<close>.\<close>

fun is_close :: "event \<Rightarrow> bool" where
  "is_close (Call Close r) = True"
| "is_close ev = False"

definition closes :: "event list \<Rightarrow> nat" where
  "closes tr = length (filter is_close tr)"



text \<open>Whether the browser was launched, that is, whether \<^verbatim>\<open>sign\<close> was entered.\<close>

fun is_launch :: "event \<Rightarrow> bool" where
  "is_launch (Call (Launch h) r) = True"
| "is_launch ev = False"

definition launched :: "event list \<Rightarrow> bool" where
  "launched tr = list_ex is_launch tr"

text \<open>Whether the archive was written.\<close>

fun is_archive :: "event \<Rightarrow> bool" where
  "is_archive (Archive src dst) = True"
| "is_archive ev = False"

definition archived :: "event list \<Rightarrow> bool" where
  "archived tr = list_ex is_archive tr"

text \<open>The events of the steps that come before \<^verbatim>\<open>sign\<close>.\<close>

fun setup_event :: "event \<Rightarrow> bool" where
  "setup_event (Console l msg) = True"
| "setup_event (Dotenv p) = True"
| "setup_event (Prompt name) = True"
| "setup_event (Archive src dst) = True"
| "setup_event (Call (MkdirSync d) r) = True"
| "setup_event ev = False"

text \<open>A computation that adds nothing but setup events to a trace of setup events.\<close>

definition setup_only :: "'a io \<Rightarrow> bool" where
  "setup_only m =
     (\<forall>s. list_all setup_event (trace s) \<longrightarrow> list_all setup_event (trace (snd (m s))))"

subsection \<open>The states of the specification\<close>

text \<open>
  The script has no state variable. The specification names the states of a submission
  run and says which action moves the run into each of them (its transition contract,
  steps 1 to 6); \<open>enters\<close> reads that contract on the events of the script:
  \<^item> navigating to the portal enters \<open>Authenticating\<close>;
  \<^item> clicking the button located as \<^verbatim>\<open>sign button\<close> enters \<open>Initiating\<close>;
  \<^item> the file chooser accepting the archive enters \<open>Uploading\<close>;
  \<^item> confirming the second dialog enters \<open>AwaitingProcessing\<close>;
  \<^item> reading the download link's target enters \<open>Downloading\<close>.
  Only a call that succeeded moves the run. The run ends in \<open>Complete\<close> when
  \<^verbatim>\<open>sign\<close> returns and in \<open>Failed\<close> when the process exits or an exception escapes.
\<close>

datatype state =
  Idle | Authenticating | Initiating | Uploading | AwaitingProcessing | Downloading
  | Complete | Failed

definition spec_order :: "state list" where
  "spec_order = [Idle, Authenticating, Initiating, Uploading, AwaitingProcessing, Downloading]"

fun enters :: "event \<Rightarrow> state option" where
  "enters (Call (Goto url) None) = Some Authenticating"
| "enters (Call (Click (Handle l sel)) None) =
     (if l = ''sign button'' then Some Initiating
      else if l = ''next button 2'' then Some AwaitingProcessing
      else None)"
| "enters (Call (Accept p) None) = Some Uploading"
| "enters (Call (Evaluate h) None) = Some Downloading"
| "enters ev = None"

definition visited :: "event list \<Rightarrow> state list" where
  "visited tr = Idle # List.map_filter enters tr"

fun terminal :: "'a outcome \<Rightarrow> state" where
  "terminal (Returned x) = Complete"
| "terminal (Exited c) = Failed"
| "terminal (Thrown e) = Failed"

subsection \<open>\<^verbatim>\<open>sign\<close> as a list of steps\<close>

text \<open>
  \<^verbatim>\<open>sign\<close> is straight-line code: a fixed sequence of steps, each of which either
  lets the next one run or ends the run. For the proofs the sequence is written as a
  list, run by \<open>run_steps\<close>; lemma \<open>sign_script\<close> below shows that this is the same
  computation as \<open>sign\<close>.
\<close>

datatype step = Emit event | Do op | Search string string | TryDo op level string

fun run_step :: "world \<Rightarrow> step \<Rightarrow> unit io" where
  "run_step w (Emit ev) = emit ev"
| "run_step w (Do c) = call w c ()"
| "run_step w (Search l sel) = and_then (search l w sel) (\<lambda>_. ret ())"
| "run_step w (TryDo c l m) = try_catch (call w c ()) (\<lambda>_. console l m)"

fun run_steps :: "world \<Rightarrow> step list \<Rightarrow> unit io" where
  "run_steps w [] = ret ()"
| "run_steps w (st # rest) = and_then (run_step w st) (\<lambda>_. run_steps w rest)"

definition sign_script ::
  "world \<Rightarrow> string \<Rightarrow> string option \<Rightarrow> string option \<Rightarrow> step list" where
  \<open>sign_script w rbzPath username password =
     [Emit (Console Info ''Starting the signing process...''),
      Do (Launch (argv_headless w)),
      Do NewPage,
      Do (Goto ''https://extensions.sketchup.com/extension/sign''),
      Emit (SetDefaultTimeout (argv_timeout w)),
      Search ''sign in button'' ''.intro-section button'',
      Do (Click (Handle ''sign in button'' ''.intro-section button'')),
      Search ''e-mail input'' ''input[id=email]'',
      Do (TypeText (Handle ''e-mail input'' ''input[id=email]'') username),
      Do (PageClick ''input[id=next]''),
      Search ''password input'' ''input[id=password]'',
      Do (TypeText (Handle ''password input'' ''input[id=password]'') password),
      Do (PageClick ''input[id=submit]''),
      Search ''sign button'' ''.intro-section button'',
      Do (Click (Handle ''sign button'' ''.intro-section button'')),
      Do (Delay 10000),
      Search ''browse button'' ''label[for=file]'',
      Do (FileChooser (Handle ''browse button'' ''label[for=file]'')),
      Do (Accept rbzPath),
      Search ''next button 1'' ''.md-modal:nth-child(1) button.primary'',
      Do (Click (Handle ''next button 1'' ''.md-modal:nth-child(1) button.primary'')),
      Search ''next button 2'' ''.md-modal:nth-child(2) button.primary'',
      Do (Click (Handle ''next button 2'' ''.md-modal:nth-child(2) button.primary'')),
      Search ''download link'' ''a.link-button'',
      Do (Evaluate (Handle ''download link'' ''a.link-button'')),
      Emit (Console Log (''Downloading '' @ link_href w @ ''...'')),
      TryDo (Download (link_href w) (path_dirname (outputPath_of rbzPath))
               (path_basename (outputPath_of rbzPath) []))
            Error ''Download failed!'',
      Emit (Console Info (''Downloaded to "'' @ outputPath_of rbzPath @ ''"'')),
      Do Close]\<close>

text \<open>Properties of single steps used to read a list of steps.\<close>

fun closing :: "step \<Rightarrow> bool" where
  "closing (Emit ev) = is_close ev"
| "closing (Do c) = (c = Close)"
| "closing (Search l sel) = False"
| "closing (TryDo c l m) = (c = Close)"




fun success_events :: "step \<Rightarrow> event list" where
  "success_events (Emit ev) = [ev]"
| "success_events (Do c) = [Call c None]"
| "success_events (Search l sel) = [Call (WaitFor sel) None]"
| "success_events (TryDo c l m) = []"

definition planned :: "step list \<Rightarrow> state list" where
  "planned steps = List.map_filter enters (concat (map success_events steps))"

fun quiet_try :: "step \<Rightarrow> bool" where
  "quiet_try (TryDo c l m) = (enters (Call c None) = None)"
| "quiet_try st = True"

fun step_ops :: "step \<Rightarrow> op list" where
  "step_ops (Emit (Call c r)) = [c]"
| "step_ops (Emit ev) = []"
| "step_ops (Do c) = [c]"
| "step_ops (Search l sel) = [WaitFor sel]"
| "step_ops (TryDo c l m) = [c]"



subsection \<open>Example worlds\<close>

text \<open>
  A world in which every call succeeds: the folder exists, the credentials are given as
  flags and the portal answers every step.
\<close>

definition demo_world :: world where
  "demo_world =
     \<lparr>argv_path = ''my_extension'', argv_env = None,
      argv_username = ''a@b.com'', argv_password = ''secret'',
      argv_output = Some ''out/my.rbz'', argv_headless = True, argv_timeout = 60000,
      dotenv_error = (\<lambda>p. None), process_env = (\<lambda>v. None),
      prompt_answer = (\<lambda>name. None),
      fs_existsSync = (\<lambda>n p. True), fs_isDirectory = (\<lambda>n p. True),
      faults = (\<lambda>n tr c. None),
      link_href = ''https://extensions.sketchup.com/dl/1.rbz''\<rparr>"

definition timeout_error :: string where
  "timeout_error = ''TimeoutError: waiting for selector failed: timeout 60000ms exceeded''"

text \<open>The same world, except that the \<open>k\<close>-th call fails with \<open>e\<close>.\<close>

definition failing_at :: "nat \<Rightarrow> string \<Rightarrow> world" where
  "failing_at k e = demo_world\<lparr>faults := (\<lambda>n tr c. if n = k then Some e else None)\<rparr>"


text \<open>
  The driver's \<^verbatim>\<open>type\<close> iterates over the characters of its argument, so typing
  \<^verbatim>\<open>undefined\<close> throws.
\<close>

definition type_error :: string where
  "type_error = ''TypeError: text is not iterable''"

fun types_undefined :: "op \<Rightarrow> bool" where
  "types_undefined (TypeText h None) = True"
| "types_undefined c = False"


text \<open>
  The flags are given and \<^verbatim>\<open>--env\<close> is given too (without a path); the dotenv file
  defines both variables.
\<close>

definition env_world :: world where
  "env_world =
     demo_world\<lparr>argv_env := Some [],
       process_env := (\<lambda>v. if v = ''EW_USERNAME'' then Some ''env-user''
                            else if v = ''EW_PASSWORD'' then Some ''env-pass'' else None)\<rparr>"

text \<open>
  No flag, no \<^verbatim>\<open>--env\<close>, and the operator cancels both prompts; the driver throws
  when it is asked to type \<^verbatim>\<open>undefined\<close>.
\<close>

definition no_input_world :: world where
  "no_input_world =
     demo_world\<lparr>argv_username := [], argv_password := [],
       faults := (\<lambda>n tr c. if types_undefined c then Some type_error else None)\<rparr>"

text \<open>The username is given as a flag, the password is typed at the prompt.\<close>

definition prompt_world :: world where
  "prompt_world =
     demo_world\<lparr>argv_password := [],
       prompt_answer := (\<lambda>name. if name = ''password'' then Some ''typed'' else None)\<rparr>"

text \<open>The extension folder does not exist; everything else does.\<close>

definition missing_dir_world :: world where
  "missing_dir_world = demo_world\<lparr>fs_existsSync := (\<lambda>n p. p \<noteq> ''my_extension'')\<rparr>"


section \<open>Proofs\<close>

lemmas io_defs =
  ret_def and_then_def try_catch_def throw_def process_exit_def emit_def console_def call_def

subsection \<open>Sequencing\<close>

lemma and_then_assoc: "and_then (and_then m f) g = and_then m (\<lambda>x. and_then (f x) g)"
  by (rule ext) (simp add: and_then_def split: prod.split outcome.split)

lemma ret_and_then: "and_then (ret x) f = f x"
  by (rule ext) (simp add: and_then_def ret_def)

lemma and_then_cases:
  assumes "and_then m f s = (out, s')"
  obtains (ok) x s1 where "m s = (Returned x, s1)" and "f x s1 = (out, s')"
    | (exited) c where "m s = (Exited c, s')" and "out = Exited c"
    | (thrown) e where "m s = (Thrown e, s')" and "out = Thrown e"
proof (cases "m s")
  case (Pair r s1)
  with assms show ?thesis
    by (cases r) (auto simp add: and_then_def intro: ok exited thrown)
qed

subsection \<open>\<^verbatim>\<open>sign\<close> runs its list of steps\<close>

lemma search_handle:
  "and_then (search l w sel) f = and_then (run_step w (Search l sel)) (\<lambda>_. f (Handle l sel))"
  by (rule ext) (simp add: search_def io_defs split: option.split)

lemma call_value:
  "and_then (call w c v) f = and_then (call w c ()) (\<lambda>_. f v)" for v :: string
  by (rule ext) (simp add: io_defs split: option.split)

lemma sign_script:
  "sign w rbzPath username password = run_steps w (sign_script w rbzPath username password)"
  unfolding sign_def sign_script_def Let_def
  by (simp only: search_handle call_value run_steps.simps run_step.simps(1,2,4) console_def)

lemma run_steps_append:
  "run_steps w (a @ b) = and_then (run_steps w a) (\<lambda>_. run_steps w b)"
  by (induction a) (simp_all add: ret_and_then and_then_assoc)

subsection \<open>Counting the calls to \<^verbatim>\<open>browser.close()\<close>\<close>

lemma is_close_Call: "is_close (Call c r) = (c = Close)"
  by (cases c) simp_all

lemma closes_append: "closes (a @ b) = closes a + closes b"
  by (simp add: closes_def)

lemma setup_no_close: "setup_event ev \<Longrightarrow> \<not> is_close ev"
  by (cases ev rule: setup_event.cases) simp_all

lemma setup_closes: "\<forall>ev \<in> set tr. setup_event ev \<Longrightarrow> closes tr = 0"
  by (auto simp add: closes_def filter_empty_conv dest: setup_no_close)

lemma run_step_no_close:
  "\<not> closing st \<Longrightarrow> closes (trace (snd (run_step w st s))) = closes (trace s)"
  by (cases st) (simp_all add: search_def io_defs closes_def is_close_Call split: option.split)

lemma run_steps_no_close:
  "\<forall>st \<in> set steps. \<not> closing st \<Longrightarrow>
   closes (trace (snd (run_steps w steps s))) = closes (trace s)"
proof (induction steps arbitrary: s)
  case Nil
  then show ?case by (simp add: ret_def)
next
  case (Cons st rest)
  obtain out s' where step: "run_step w st s = (out, s')"
    by (cases "run_step w st s")
  from Cons.prems have st: "\<not> closing st" and rest: "\<forall>x \<in> set rest. \<not> closing x"
    by simp_all
  from run_step_no_close [OF st, of w s] step have keep: "closes (trace s') = closes (trace s)"
    by simp
  show ?case
    using Cons.IH [OF rest, of s'] keep step
    by (cases out) (simp_all add: and_then_def)
qed

text \<open>Only a search ends the process, and it does so with code 1.\<close>

lemma run_step_exit:
  "run_step w st s = (Exited c, s') \<Longrightarrow> c = 1"
  by (cases st) (auto simp add: search_def io_defs split: option.splits)

lemma run_steps_exit:
  "run_steps w steps s = (Exited c, s') \<Longrightarrow> c = 1"
proof (induction steps arbitrary: s)
  case Nil
  then show ?case by (simp add: ret_def)
next
  case (Cons st rest)
  from Cons.prems have "and_then (run_step w st) (\<lambda>_. run_steps w rest) s = (Exited c, s')"
    by simp
  then show ?case
  proof (cases rule: and_then_cases)
    case (ok x s1)
    then show ?thesis using Cons.IH by blast
  next
    case (exited d)
    then show ?thesis using run_step_exit by blast
  next
    case (thrown e)
    then show ?thesis by simp
  qed
qed

lemma sign_script_split:
  "sign_script w r u p = butlast (sign_script w r u p) @ [Do Close]"
  by (simp add: sign_script_def)

lemma sign_script_pre_no_close:
  "\<forall>st \<in> set (butlast (sign_script w r u p)). \<not> closing st"
  by (simp add: sign_script_def)

lemma sign_closes:
  assumes "sign w r u p s = (out, s')"
  shows "closes (trace s') =
           closes (trace s) + (case out of Returned x \<Rightarrow> 1 | Exited c \<Rightarrow> 0 | Thrown e \<Rightarrow>
              (if fst (run_steps w (butlast (sign_script w r u p)) s) = Returned () then 1 else 0))"
    and "\<And>c. out = Exited c \<Longrightarrow> c = 1"
proof -
  let ?pre = "butlast (sign_script w r u p)"
  have split: "sign w r u p = and_then (run_steps w ?pre) (\<lambda>_. run_steps w [Do Close])"
    by (subst sign_script, subst sign_script_split, rule run_steps_append)
  have keep: "closes (trace (snd (run_steps w ?pre s))) = closes (trace s)"
    by (rule run_steps_no_close [OF sign_script_pre_no_close])
  from assms split have run: "and_then (run_steps w ?pre) (\<lambda>_. run_steps w [Do Close]) s = (out, s')"
    by simp
  then show "closes (trace s') =
           closes (trace s) + (case out of Returned x \<Rightarrow> 1 | Exited c \<Rightarrow> 0 | Thrown e \<Rightarrow>
              (if fst (run_steps w ?pre s) = Returned () then 1 else 0))"
  proof (cases rule: and_then_cases)
    case (ok x s1)
    with keep have "closes (trace s1) = closes (trace s)" by simp
    with ok show ?thesis
      by (auto simp add: io_defs closes_append closes_def split: option.splits)
  next
    case (exited c)
    with keep show ?thesis by simp
  next
    case (thrown e)
    with keep show ?thesis by simp
  qed
  show "\<And>c. out = Exited c \<Longrightarrow> c = 1"
    using assms run_steps_exit [of w "sign_script w r u p" s _ s'] by (simp add: sign_script)
qed

subsection \<open>The steps before \<^verbatim>\<open>sign\<close>\<close>

lemma setup_only_and_then:
  assumes m: "setup_only m" and f: "\<And>x. setup_only (f x)"
  shows "setup_only (and_then m f)"
  unfolding setup_only_def
proof (intro allI impI)
  fix s :: pstate
  assume s: "list_all setup_event (trace s)"
  obtain r s1 where ms: "m s = (r, s1)" by (cases "m s")
  with m s have s1: "list_all setup_event (trace s1)"
    by (fastforce simp add: setup_only_def)
  show "list_all setup_event (trace (snd (and_then m f s)))"
  proof (cases r)
    case (Returned x)
    with f [of x] s1 ms show ?thesis by (simp add: setup_only_def and_then_def)
  next
    case (Exited c)
    with s1 ms show ?thesis by (simp add: and_then_def)
  next
    case (Thrown e)
    with s1 ms show ?thesis by (simp add: and_then_def)
  qed
qed

lemma setup_only_basic:
  "setup_only (ret x)"
  "setup_only (throw e)"
  "setup_only (process_exit c)"
  "setup_only (console l msg)"
  "setup_only (existsSync w p)"
  "setup_only (lstatSync_isDirectory w p)"
  "setup_only (config w p)"
  "setup_only (prompts w name)"
  "setup_only (emit (Archive src dst))"
  "setup_only (call w (MkdirSync d) v)"
  by (simp_all add: setup_only_def io_defs existsSync_def lstatSync_isDirectory_def
      config_def prompts_def split: option.split)

lemma setup_only_getCredentials: "setup_only (getCredentials w)"
  unfolding getCredentials_def Let_def
  by (auto intro!: setup_only_and_then setup_only_basic split: option.split)

lemma setup_only_zip: "setup_only (zip_ext w output)"
  unfolding zip_ext_def Let_def
  by (auto intro!: setup_only_and_then setup_only_basic split: option.split)

lemma setup_onlyD:
  "setup_only m \<Longrightarrow> list_all setup_event (trace s) \<Longrightarrow> m s = (out, s') \<Longrightarrow>
   list_all setup_event (trace s')"
  by (fastforce simp add: setup_only_def)

text \<open>
  A run of \<^verbatim>\<open>main\<close> either ends before \<^verbatim>\<open>sign\<close>, having done nothing but setup, or
  is a run of \<^verbatim>\<open>sign\<close> from a state that setup alone produced.
\<close>

lemma zip_returns:
  assumes "zip_ext w output s = (Returned rbzPath, s')"
  obtains p where "output = Some p" and "rbzPath = rbzPath_of p"
  using assms
  by (cases "output")
     (auto simp add: zip_ext_def existsSync_def lstatSync_isDirectory_def io_defs Let_def
       split: if_splits)

lemma main_cases:
  assumes "main w start = (out, s')"
  obtains (early) "list_all setup_event (trace s')" and "\<And>x. out \<noteq> Returned x"
    | (signing) p username password s0 s1 where
        "argv_output w = Some p"
        and "fst (getCredentials w s0) = Returned (username, password)"
        and "list_all setup_event (trace s1)"
        and "sign w (rbzPath_of p) username password s1 = (out, s')"
proof -
  let ?pre = "case argv_output w of
           None \<Rightarrow> ret ()
         | Some out \<Rightarrow>
             if out = [] then ret ()
             else
               (let outputDir = path_dirname out in
                and_then (existsSync w outputDir) (\<lambda>ex.
                if \<not> ex then call w (MkdirSync outputDir) () else ret ()))"
  have pre: "setup_only ?pre"
    unfolding Let_def
    by (auto intro!: setup_only_and_then setup_only_basic split: option.split)
  have s0: "list_all setup_event (trace start)" by (simp add: start_def)
  from assms have "and_then ?pre (\<lambda>_. and_then (getCredentials w) (\<lambda>(username, password).
      and_then (zip_ext w (argv_output w)) (\<lambda>rbzPath. sign w rbzPath username password))) start = (out, s')"
    by (simp add: main_def Let_def)
  then show ?thesis
  proof (cases rule: and_then_cases)
    case (ok x s1)
    from setup_onlyD [OF pre s0 ok(1)] have s1: "list_all setup_event (trace s1)" .
    from ok(2) show ?thesis
    proof (cases rule: and_then_cases)
      case (ok cred s2)
      from setup_onlyD [OF setup_only_getCredentials s1 ok(1)]
      have s2: "list_all setup_event (trace s2)" .
      obtain u pw where cred: "cred = (u, pw)" by (cases cred)
      with ok(1) have got: "fst (getCredentials w s1) = Returned (u, pw)" by simp
      from cred ok(2)
      have "and_then (zip_ext w (argv_output w)) (\<lambda>rbzPath. sign w rbzPath u pw) s2 = (out, s')"
        by simp
      then show ?thesis
      proof (cases rule: and_then_cases)
        case (ok rbz s3)
        from ok(1) obtain p where p: "argv_output w = Some p" "rbz = rbzPath_of p"
          by (rule zip_returns)
        from setup_onlyD [OF setup_only_zip s2 ok(1)] ok(2) p got show ?thesis
          by (intro signing [of p s1 u pw s3]) simp_all
      next
        case (exited c)
        from setup_onlyD [OF setup_only_zip s2 exited(1)] exited(2) show ?thesis
          by (intro early) simp_all
      next
        case (thrown e)
        from setup_onlyD [OF setup_only_zip s2 thrown(1)] thrown(2) show ?thesis
          by (intro early) simp_all
      qed
    next
      case (exited c)
      from setup_onlyD [OF setup_only_getCredentials s1 exited(1)] exited(2) show ?thesis
        by (intro early) simp_all
    next
      case (thrown e)
      from setup_onlyD [OF setup_only_getCredentials s1 thrown(1)] thrown(2) show ?thesis
        by (intro early) simp_all
    qed
  next
    case (exited c)
    from setup_onlyD [OF pre s0 exited(1)] exited(2) show ?thesis
      by (intro early) simp_all
  next
    case (thrown e)
    from setup_onlyD [OF pre s0 thrown(1)] thrown(2) show ?thesis
      by (intro early) simp_all
  qed
qed

lemma main_closes:
  assumes "main w start = (out, s')"
  shows "closes (trace s') \<le> 1"
    and "out = Returned () \<Longrightarrow> closes (trace s') = 1"
    and "out = Exited c \<Longrightarrow> closes (trace s') = 0"
  using assms
proof (atomize (full), cases rule: main_cases)
  case early
  then have "closes (trace s') = 0"
    by (intro setup_closes) (simp add: list_all_iff)
  with early show "closes (trace s') \<le> 1 \<and>
    (out = Returned () \<longrightarrow> closes (trace s') = 1) \<and>
    (out = Exited c \<longrightarrow> closes (trace s') = 0)"
    by simp
next
  case (signing p username password s0 s1)
  then have "closes (trace s1) = 0"
    by (intro setup_closes) (simp add: list_all_iff)
  with sign_closes(1) [OF signing(4)]
  show "closes (trace s') \<le> 1 \<and>
    (out = Returned () \<longrightarrow> closes (trace s') = 1) \<and>
    (out = Exited c \<longrightarrow> closes (trace s') = 0)"
    by (cases out) simp_all
qed

lemmas run_defs =
  main_def getCredentials_def zip_ext_def existsSync_def lstatSync_isDirectory_def
  config_def prompts_def falsy_def sign_script sign_script_def search_def io_defs
  start_def Let_def

lemmas path_defs =
  path_dirname_def path_basename_def path_parse_name_def path_join_def path_normalize_def
  last_part_def trailing_seps_def ends_with_def is_sep_def not_sep_def outputPath_of_def
  rbzPath_of_def

subsection \<open>C1: closing the browser session\<close>

text \<open>
  C1, as stated, fails. The claim is that every run closes the browser session exactly
  once, also when a located element times out. In the run below the first
  \<^verbatim>\<open>waitFor\<close> (the fourth call of the run) times out: \<^verbatim>\<open>search\<close> exits the
  process with code 1 and \<^verbatim>\<open>browser.close()\<close> is never called.
\<close>

theorem timeout_leaves_session_open:
  "fst (main (failing_at 3 timeout_error) start) = Exited 1 \<and>
   closes (trace (snd (main (failing_at 3 timeout_error) start))) = 0"
  by (simp add: run_defs path_defs failing_at_def demo_world_def closes_def)

text \<open>
  C1, amended. No run calls \<^verbatim>\<open>browser.close()\<close> more than once. A run in which
  \<^verbatim>\<open>main\<close> returns, which includes the run whose download failed, calls it exactly
  once. A run ended by \<^verbatim>\<open>process.exit\<close>, as every timeout of a located element
  does, never calls it.
\<close>

theorem main_closes_session:
  "closes (trace (snd (main w start))) \<le> 1 \<and>
   (fst (main w start) = Returned () \<longrightarrow> closes (trace (snd (main w start))) = 1) \<and>
   (\<forall>c. fst (main w start) = Exited c \<longrightarrow> closes (trace (snd (main w start))) = 0)"
proof -
  have run: "main w start = (fst (main w start), snd (main w start))" by simp
  show ?thesis
    using main_closes(1) [OF run] main_closes(2) [OF run] main_closes(3) [OF run]
    by blast
qed

theorem main_closes_session_witness:
  "fst (main demo_world start) = Returned () \<and>
   closes (trace (snd (main demo_world start))) = 1"
proof -
  have ret: "fst (main demo_world start) = Returned ()"
    by (simp add: run_defs path_defs demo_world_def)
  with main_closes_session [of demo_world] show ?thesis by simp
qed

subsection \<open>C6: an element that never appears\<close>

text \<open>
  C6, as stated, fails. The claim is that the timeout is signalled as an error that is
  propagated to the caller of \<^verbatim>\<open>search\<close>. In the run below the wait times out and
  \<^verbatim>\<open>search\<close> does not throw: it ends the process itself, with code 1.
\<close>

theorem search_exits_instead_of_throwing:
  "fst (search ''sign in button'' (failing_at 0 timeout_error) ''.intro-section button'' start)
     = Exited 1 \<and>
   fst (search ''sign in button'' (failing_at 0 timeout_error) ''.intro-section button'' start)
     \<noteq> Thrown timeout_error"
  by (simp add: search_def io_defs failing_at_def demo_world_def start_def)

text \<open>
  C6, amended. \<^verbatim>\<open>search\<close> writes the line \<^verbatim>\<open>Searching <label>...\<close> before it
  waits. When the wait fails with error \<open>e\<close> it is not repeated: \<^verbatim>\<open>search\<close> writes
  \<^verbatim>\<open>cannot find <label>: <e>\<close> to the error stream, where \<open>e\<close> is the driver's error
  text, and ends the process with exit code 1; its caller does not get control back.
\<close>

theorem search_timeout:
  "faults page (tick s) (trace s @ [Console Log (''Searching '' @ targetName @ ''...'')])
     (WaitFor selector) = Some e \<Longrightarrow>
   search targetName page selector s =
     (Exited 1,
      \<lparr>trace = trace s @ [Console Log (''Searching '' @ targetName @ ''...''),
                          Call (WaitFor selector) (Some e),
                          Console Error (''cannot find '' @ targetName @ '': '' @ e)],
       tick = Suc (tick s)\<rparr>)"
  by (simp add: search_def io_defs)

theorem search_timeout_witness:
  "faults (failing_at 0 timeout_error) (tick start)
     (trace start @ [Console Log (''Searching '' @ ''sign in button'' @ ''...'')])
     (WaitFor ''.intro-section button'') = Some timeout_error \<and>
   search ''sign in button'' (failing_at 0 timeout_error) ''.intro-section button'' start =
     (Exited 1,
      \<lparr>trace = [Console Log ''Searching sign in button...'',
                 Call (WaitFor ''.intro-section button'') (Some timeout_error),
                 Console Error (''cannot find sign in button: '' @ timeout_error)],
       tick = 1\<rparr>)"
proof -
  have f: "faults (failing_at 0 timeout_error) (tick start)
     (trace start @ [Console Log (''Searching '' @ ''sign in button'' @ ''...'')])
     (WaitFor ''.intro-section button'') = Some timeout_error"
    by (simp add: failing_at_def start_def)
  from search_timeout [OF f] f
  show ?thesis by (simp add: start_def)
qed

subsection \<open>The states a run visits\<close>

lemma enters_failed: "enters (Call c (Some e)) = None"
  by (cases c) simp_all

lemma setup_enters: "setup_event ev \<Longrightarrow> enters ev = None"
  by (cases ev rule: setup_event.cases) simp_all

lemma map_filter_append: "List.map_filter f (a @ b) = List.map_filter f a @ List.map_filter f b"
  by (simp add: List.map_filter_def)

lemma setup_visited: "list_all setup_event tr \<Longrightarrow> List.map_filter enters tr = []"
  by (induction tr) (simp_all add: List.map_filter_simps setup_enters)

lemma run_step_visited:
  assumes "quiet_try st" and "run_step w st s = (out, s')"
  shows "List.map_filter enters (trace s') =
           List.map_filter enters (trace s) @
           (if out = Returned () then List.map_filter enters (success_events st) else [])"
  using assms
  by (cases st)
     (auto simp add: search_def io_defs map_filter_append List.map_filter_simps enters_failed
       split: option.splits)

lemma planned_Cons:
  "planned (st # rest) = List.map_filter enters (success_events st) @ planned rest"
  by (simp add: planned_def map_filter_append)

lemma run_steps_visited:
  assumes "\<forall>st \<in> set steps. quiet_try st" and "run_steps w steps s = (out, s')"
  shows "\<exists>n. List.map_filter enters (trace s') =
               List.map_filter enters (trace s) @ take n (planned steps) \<and>
             (out = Returned () \<longrightarrow> take n (planned steps) = planned steps)"
  using assms
proof (induction steps arbitrary: s)
  case Nil
  then show ?case by (simp add: ret_def planned_def List.map_filter_simps)
next
  case (Cons st rest)
  let ?a = "List.map_filter enters (success_events st)"
  from Cons.prems have q: "quiet_try st" and qs: "\<forall>x \<in> set rest. quiet_try x"
    by simp_all
  from Cons.prems(2) have "and_then (run_step w st) (\<lambda>_. run_steps w rest) s = (out, s')"
    by simp
  then show ?case
  proof (cases rule: and_then_cases)
    case (ok x s1)
    from run_step_visited [OF q ok(1)]
    have one: "List.map_filter enters (trace s1) = List.map_filter enters (trace s) @ ?a"
      by simp
    from Cons.IH [OF qs ok(2)] obtain n where
      n: "List.map_filter enters (trace s') =
            List.map_filter enters (trace s1) @ take n (planned rest)"
         "out = Returned () \<longrightarrow> take n (planned rest) = planned rest"
      by blast
    show ?thesis
    proof (intro exI [of _ "length ?a + n"] conjI)
      show "List.map_filter enters (trace s') =
              List.map_filter enters (trace s) @ take (length ?a + n) (planned (st # rest))"
        using one n(1) by (simp add: planned_Cons)
      show "out = Returned () \<longrightarrow>
              take (length ?a + n) (planned (st # rest)) = planned (st # rest)"
        using n(2) by (simp add: planned_Cons)
    qed
  next
    case (exited c)
    from run_step_visited [OF q exited(1)] exited(2) show ?thesis
      by (intro exI [of _ 0]) simp
  next
    case (thrown e)
    from run_step_visited [OF q thrown(1)] thrown(2) show ?thesis
      by (intro exI [of _ 0]) simp
  qed
qed

lemma sign_planned: "Idle # planned (sign_script w r u p) = spec_order"
  by (simp add: sign_script_def planned_def spec_order_def List.map_filter_simps)

lemma sign_quiet: "\<forall>st \<in> set (sign_script w r u p). quiet_try st"
  by (simp add: sign_script_def)

lemma sign_visited:
  assumes "sign w r u p s = (out, s')" and "List.map_filter enters (trace s) = []"
  shows "\<exists>n. visited (trace s') = take (Suc n) spec_order \<and>
             (out = Returned () \<longrightarrow> visited (trace s') = spec_order)"
proof -
  from assms(1) have "run_steps w (sign_script w r u p) s = (out, s')"
    by (simp add: sign_script)
  from run_steps_visited [OF sign_quiet this] assms(2) obtain n where
    "List.map_filter enters (trace s') = take n (planned (sign_script w r u p))"
    "out = Returned () \<longrightarrow> take n (planned (sign_script w r u p)) = planned (sign_script w r u p)"
    by auto
  then show ?thesis
    by (intro exI [of _ n]) (simp add: visited_def sign_planned [of w r u p, symmetric])
qed

lemma take_prefix: "xs = take n ys \<Longrightarrow> xs = take (length xs) ys"
  by (simp add: min_def)

lemma main_visited:
  assumes "main w start = (out, s')"
  shows "visited (trace s') = take (length (visited (trace s'))) spec_order"
    and "terminal out = Complete \<Longrightarrow> visited (trace s') = spec_order"
  using assms
proof (atomize (full), cases rule: main_cases)
  case early
  then have "visited (trace s') = [Idle]"
    by (simp add: visited_def setup_visited)
  with early(2) show "visited (trace s') = take (length (visited (trace s'))) spec_order \<and>
    (terminal out = Complete \<longrightarrow> visited (trace s') = spec_order)"
    by (cases out) (simp_all add: spec_order_def)
next
  case (signing p username password s0 s1)
  from sign_visited [OF signing(4) setup_visited [OF signing(3)]] obtain n where
    n: "visited (trace s') = take (Suc n) spec_order"
       "out = Returned () \<longrightarrow> visited (trace s') = spec_order"
    by blast
  from take_prefix [OF n(1)] n(2)
  show "visited (trace s') = take (length (visited (trace s'))) spec_order \<and>
    (terminal out = Complete \<longrightarrow> visited (trace s') = spec_order)"
    by (cases out) simp_all
qed

text \<open>
  C3. Read through \<open>enters\<close>, every run of \<^verbatim>\<open>main\<close> visits the states of the
  specification in their order: the states visited are an initial part of
  \<open>Idle, Authenticating, Initiating, Uploading, AwaitingProcessing, Downloading\<close>,
  beginning with \<open>Idle\<close>, so none is skipped, none is repeated and none is entered after
  a later one. The run ends in exactly one of \<open>Complete\<close> and \<open>Failed\<close>, and it ends
  in \<open>Complete\<close> only after all six states.
\<close>

theorem main_visits_states_in_order:
  "visited (trace (snd (main w start))) =
     take (length (visited (trace (snd (main w start))))) spec_order \<and>
   hd (visited (trace (snd (main w start)))) = Idle \<and>
   distinct (visited (trace (snd (main w start)))) \<and>
   (terminal (fst (main w start)) = Complete \<or> terminal (fst (main w start)) = Failed) \<and>
   (terminal (fst (main w start)) = Complete \<longrightarrow>
      visited (trace (snd (main w start))) = spec_order)"
proof -
  have run: "main w start = (fst (main w start), snd (main w start))" by simp
  have pre: "visited (trace (snd (main w start))) =
     take (length (visited (trace (snd (main w start))))) spec_order"
    by (rule main_visited(1) [OF run])
  have "distinct spec_order" by (simp add: spec_order_def)
  then have "distinct (take (length (visited (trace (snd (main w start))))) spec_order)"
    by (rule distinct_take)
  with pre have dist: "distinct (visited (trace (snd (main w start))))" by simp
  have fin: "terminal (fst (main w start)) = Complete \<or> terminal (fst (main w start)) = Failed"
    by (cases "fst (main w start)") simp_all
  have first: "hd (visited (trace (snd (main w start)))) = Idle"
    by (simp add: visited_def)
  show ?thesis
    using pre first dist fin main_visited(2) [OF run] by blast
qed

theorem main_visits_states_in_order_witness:
  "terminal (fst (main demo_world start)) = Complete \<and>
   visited (trace (snd (main demo_world start))) =
     [Idle, Authenticating, Initiating, Uploading, AwaitingProcessing, Downloading]"
proof -
  have "fst (main demo_world start) = Returned ()"
    by (simp add: run_defs path_defs demo_world_def)
  then have "terminal (fst (main demo_world start)) = Complete" by simp
  with main_visits_states_in_order [of demo_world] show ?thesis
    by (simp add: spec_order_def)
qed

subsection \<open>C8: what the console shows\<close>













subsection \<open>C4: a download that fails\<close>


lemma run_step_Emit:
  "run_step w (Emit ev) s =
     (Returned (), \<lparr>trace = trace s @ [ev], tick = tick s\<rparr>)"
  by (simp add: io_defs)






subsection \<open>C5: where the download goes\<close>

lemma no_sep_dropWhile: "CHR ''/'' \<notin> set xs \<Longrightarrow> dropWhile is_sep xs = xs"
  by (cases xs) (auto simp add: is_sep_def)

lemma no_sep_dropWhile_not: "CHR ''/'' \<notin> set xs \<Longrightarrow> dropWhile not_sep xs = []"
  by (induction xs) (auto simp add: not_sep_def)

lemma no_sep_takeWhile_not: "CHR ''/'' \<notin> set xs \<Longrightarrow> takeWhile not_sep xs = xs"
  by (induction xs) (auto simp add: not_sep_def)

lemma dirname_plain:
  assumes "p \<noteq> []" and "CHR ''/'' \<notin> set p"
  shows "path_dirname p = ''.''"
proof -
  from assms(1) obtain c cs where p: "p = c # cs" by (cases p) simp_all
  with assms(2) have c: "\<not> is_sep c" and cs: "CHR ''/'' \<notin> set (rev cs)"
    by (auto simp add: is_sep_def)
  from cs have "dropWhile is_sep (rev cs) = rev cs"
    by (rule no_sep_dropWhile)
  moreover from cs have "dropWhile not_sep (rev cs) = []"
    by (rule no_sep_dropWhile_not)
  ultimately have "dropWhile not_sep (dropWhile is_sep (rev cs)) = []"
    by simp
  with p c show ?thesis
    by (simp only: path_dirname_def Let_def list.case simp_thms if_True if_False)
qed

lemma last_part_plain: "CHR ''/'' \<notin> set p \<Longrightarrow> last_part p = p"
  by (simp add: last_part_def no_sep_dropWhile no_sep_takeWhile_not)

lemma basename_plain:
  assumes "n \<noteq> []" and "CHR ''/'' \<notin> set n"
  shows "path_basename (n @ ''_not_signed.rbz'') ''_not_signed.rbz'' = n"
proof -
  have "CHR ''/'' \<notin> set (n @ ''_not_signed.rbz'')" using assms(2) by simp
  then have "last_part (n @ ''_not_signed.rbz'') = n @ ''_not_signed.rbz''"
    by (rule last_part_plain)
  with assms(1) show ?thesis
    by (simp add: path_basename_def Let_def ends_with_def)
qed

lemma split_path_plain: "CHR ''/'' \<notin> set p \<Longrightarrow> split_path p = [p]"
  by (induction p) (auto simp add: is_sep_def)

lemma join_plain:
  assumes "CHR ''/'' \<notin> set n"
  shows "path_join [''.'', n @ ''_signed.rbz''] = n @ ''_signed.rbz''"
proof -
  have sp: "split_path (n @ ''_signed.rbz'') = [n @ ''_signed.rbz'']"
    using assms by (intro split_path_plain) simp
  have ne: "n @ ''_signed.rbz'' \<noteq> ''.''" "n @ ''_signed.rbz'' \<noteq> ''..''"
    by (auto simp add: append_eq_Cons_conv)
  from sp ne show ?thesis
    by (simp add: path_join_def path_normalize_def Let_def is_sep_def)
qed

lemma outputPath_plain:
  assumes "n \<noteq> []" and "CHR ''/'' \<notin> set n"
  shows "outputPath_of (n @ ''_not_signed.rbz'') = n @ ''_signed.rbz''"
proof -
  have "path_dirname (n @ ''_not_signed.rbz'') = ''.''"
    using assms by (intro dirname_plain) simp_all
  with basename_plain [OF assms] join_plain [OF assms(2)] show ?thesis
    by (simp add: outputPath_of_def)
qed

lemma run_step_calls:
  assumes "run_step w st s = (out, s')" and "Call c r \<in> set (trace s')"
  shows "Call c r \<in> set (trace s) \<or> c \<in> set (step_ops st)"
proof (cases st)
  case (Emit ev)
  with assms show ?thesis by (cases ev) (auto simp add: io_defs)
next
  case (Do d)
  with assms show ?thesis by (auto simp add: io_defs split: option.splits)
next
  case (Search l sel)
  with assms show ?thesis by (auto simp add: search_def io_defs split: option.splits)
next
  case (TryDo d l m)
  with assms show ?thesis by (auto simp add: io_defs split: option.splits)
qed

lemma run_steps_calls:
  assumes "run_steps w steps s = (out, s')" and "Call c r \<in> set (trace s')"
  shows "Call c r \<in> set (trace s) \<or> c \<in> set (concat (map step_ops steps))"
  using assms
proof (induction steps arbitrary: s)
  case Nil
  then show ?case by (simp add: ret_def)
next
  case (Cons st rest)
  from Cons.prems(1) have "and_then (run_step w st) (\<lambda>_. run_steps w rest) s = (out, s')"
    by simp
  then show ?case
  proof (cases rule: and_then_cases)
    case (ok x s1)
    from Cons.IH [OF ok(2) Cons.prems(2)] run_step_calls [OF ok(1)] show ?thesis
      by auto
  next
    case (exited d)
    from run_step_calls [OF exited(1) Cons.prems(2)] show ?thesis by auto
  next
    case (thrown e)
    from run_step_calls [OF thrown(1) Cons.prems(2)] show ?thesis by auto
  qed
qed

lemma sign_download:
  assumes "sign w rbzPath u p s = (out, s')"
    and "Call (Download url dir fname) r \<in> set (trace s')"
    and "Call (Download url dir fname) r \<notin> set (trace s)"
  shows "url = link_href w \<and> dir = path_dirname (outputPath_of rbzPath) \<and>
         fname = path_basename (outputPath_of rbzPath) []"
proof -
  from assms(1) have "run_steps w (sign_script w rbzPath u p) s = (out, s')"
    by (simp add: sign_script)
  from run_steps_calls [OF this assms(2)] assms(3)
  have "Download url dir fname \<in> set (concat (map step_ops (sign_script w rbzPath u p)))"
    by simp
  then show ?thesis by (simp add: sign_script_def)
qed

lemma setup_no_download: "list_all setup_event tr \<Longrightarrow> Call (Download url dir fname) r \<notin> set tr"
  by (auto simp add: list_all_iff)

lemma main_download:
  assumes "main w start = (out, s')" and "Call (Download url dir fname) r \<in> set (trace s')"
  shows "\<exists>p. argv_output w = Some p \<and>
             dir = path_dirname (outputPath_of (rbzPath_of p)) \<and>
             fname = path_basename (outputPath_of (rbzPath_of p)) []"
  using assms(1)
proof (cases rule: main_cases)
  case early
  with assms(2) show ?thesis using setup_no_download by blast
next
  case (signing p username password s0 s1)
  from sign_download [OF signing(4) assms(2) setup_no_download [OF signing(3)]] signing(1)
  show ?thesis by simp
qed

text \<open>
  C5. The run below is given the output path \<^verbatim>\<open>out/my.rbz\<close>, which the script's help
  text describes as the path to download the signed extension to, and which the older
  copy of the script does use as the destination. Here \<^verbatim>\<open>zip\<close> writes the archive
  to \<^verbatim>\<open>out/my_not_signed.rbz\<close> and \<^verbatim>\<open>sign\<close> downloads the signed extension to the
  directory \<^verbatim>\<open>out\<close> under the name \<^verbatim>\<open>my_signed.rbz\<close>; nothing is downloaded to
  \<^verbatim>\<open>out/my.rbz\<close>. The first half of the claim holds:
  \<^verbatim>\<open>widget_not_signed.rbz\<close> gives \<^verbatim>\<open>widget_signed.rbz\<close>.
\<close>

theorem custom_output_path_not_used:
  "argv_output demo_world = Some ''out/my.rbz'' \<and>
   fst (main demo_world start) = Returned () \<and>
   Archive ''my_extension'' ''out/my_not_signed.rbz'' \<in> set (trace (snd (main demo_world start))) \<and>
   Call (Download (link_href demo_world) ''out'' ''my_signed.rbz'') None
     \<in> set (trace (snd (main demo_world start))) \<and>
   Call (Download (link_href demo_world) ''out'' ''my.rbz'') None
     \<notin> set (trace (snd (main demo_world start))) \<and>
   outputPath_of ''widget_not_signed.rbz'' = ''widget_signed.rbz''"
  by (simp add: run_defs path_defs demo_world_def)

subsection \<open>C2: where the credentials come from\<close>

text \<open>
  C2, as stated, fails. The claim is that explicit flags take priority over the values of
  the environment file. In the run below both flags are given and \<^verbatim>\<open>--env\<close> is given
  as well: the credentials returned are those of the environment file.
\<close>

theorem env_file_overrides_flags:
  "argv_username env_world = ''a@b.com'' \<and> argv_password env_world = ''secret'' \<and>
   getCredentials env_world start =
     (Returned (Some ''env-user'', Some ''env-pass''), \<lparr>trace = [Dotenv ''.env''], tick = 0\<rparr>)"
  by (simp add: getCredentials_def config_def prompts_def falsy_def io_defs Let_def
      env_world_def demo_world_def start_def)

text \<open>
  C2, amended. With \<^verbatim>\<open>--env\<close>, the values of the environment file are used and
  override the flags, and nothing is prompted for; when the file cannot be loaded or one
  of \<^verbatim>\<open>EW_USERNAME\<close>, \<^verbatim>\<open>EW_PASSWORD\<close> is missing or empty, the process exits with
  code 1 after one error line, again without prompting. Without \<^verbatim>\<open>--env\<close>, a flag
  that is not empty is used as it is, and each field whose flag is empty is prompted for
  exactly once, the username first.
\<close>

theorem getCredentials_sources:
  assumes "getCredentials w s = (out, s')"
  shows
    "(case argv_env w of
        None \<Rightarrow>
          out = Returned
                  (if argv_username w = [] then prompt_answer w ''username''
                   else Some (argv_username w),
                   if argv_password w = [] then prompt_answer w ''password''
                   else Some (argv_password w)) \<and>
          trace s' = trace s @
            (if argv_username w = [] then [Prompt ''username''] else []) @
            (if argv_password w = [] then [Prompt ''password''] else [])
      | Some env \<Rightarrow>
          (let envPath = (if env = [] then ''.env'' else env) in
           if dotenv_error w envPath = None \<and> \<not> falsy (process_env w ''EW_USERNAME'') \<and>
              \<not> falsy (process_env w ''EW_PASSWORD'')
           then out = Returned (process_env w ''EW_USERNAME'', process_env w ''EW_PASSWORD'') \<and>
                trace s' = trace s @ [Dotenv envPath]
           else out = Exited 1 \<and>
                (\<exists>msg. trace s' = trace s @ [Dotenv envPath, Console Error msg])))"
  using assms
  by (auto simp add: getCredentials_def config_def prompts_def falsy_def io_defs Let_def
      split: option.splits if_splits)

theorem getCredentials_sources_witness:
  "fst (getCredentials prompt_world start) = Returned (Some ''a@b.com'', Some ''typed'') \<and>
   trace (snd (getCredentials prompt_world start)) = [Prompt ''password'']"
proof -
  have run: "getCredentials prompt_world start =
      (fst (getCredentials prompt_world start), snd (getCredentials prompt_world start))"
    by simp
  from getCredentials_sources [OF run] show ?thesis
    by (simp add: prompt_world_def demo_world_def start_def)
qed

text \<open>
  The older copy of \<^verbatim>\<open>getCredentials\<close> is the present one with \<^verbatim>\<open>--env\<close> given
  without a path, or not given: what is proved of the one holds of the other.
\<close>

lemma config_update: "config (w\<lparr>argv_env := e\<rparr>) = config w"
  by (rule ext, rule ext) (simp add: config_def)

lemma prompts_update: "prompts (w\<lparr>argv_env := e\<rparr>) = prompts w"
  by (rule ext, rule ext) (simp add: prompts_def)

lemma getCredentials_part_000:
  "getCredentials_part_000 env w =
     getCredentials (w\<lparr>argv_env := (if env then Some [] else None)\<rparr>)"
proof (cases env)
  case True
  then show ?thesis
    unfolding getCredentials_part_000_def getCredentials_def Let_def
    by (simp add: config_update prompts_update cong: if_cong option.case_cong)
next
  case False
  then show ?thesis
    unfolding getCredentials_part_000_def getCredentials_def Let_def
    by (simp add: config_update prompts_update cong: if_cong option.case_cong)
qed
subsection \<open>C9: missing credentials\<close>

lemma getCredentials_bad_env:
  assumes "argv_env w = Some env"
    and "dotenv_error w (if env = [] then ''.env'' else env) \<noteq> None \<or>
         falsy (process_env w ''EW_USERNAME'') \<or> falsy (process_env w ''EW_PASSWORD'')"
  shows "\<exists>msg. getCredentials w s =
           (Exited 1,
            s\<lparr>trace := trace s @ [Dotenv (if env = [] then ''.env'' else env),
                                  Console Error msg]\<rparr>)"
  using assms
  by (auto simp add: getCredentials_def config_def io_defs Let_def split: option.splits)

lemma getCredentials_no_env:
  assumes "argv_env w = None"
  shows "fst (getCredentials w s) =
           Returned
             (if argv_username w = [] then prompt_answer w ''username''
              else Some (argv_username w),
              if argv_password w = [] then prompt_answer w ''password''
              else Some (argv_password w))"
  using assms
  by (simp add: getCredentials_def prompts_def falsy_def io_defs)

lemma setup_not_launched: "list_all setup_event tr \<Longrightarrow> \<not> launched tr"
  by (induction tr) (auto simp add: launched_def elim: setup_event.elims)

text \<open>
  The first lines of \<^verbatim>\<open>main\<close>: either creating the output directory throws, or
  \<^verbatim>\<open>getCredentials\<close> is reached after at most that one call.
\<close>

lemma main_start:
  obtains (ready) s1 where "trace s1 = [] \<or> (\<exists>d. trace s1 = [Call (MkdirSync d) None])"
      and "main w start =
             and_then (getCredentials w) (\<lambda>(username, password).
               and_then (zip_ext w (argv_output w)) (\<lambda>rbzPath.
                 sign w rbzPath username password)) s1"
    | (mkdir_failed) e d where
        "main w start = (Thrown e, \<lparr>trace = [Call (MkdirSync d) (Some e)], tick = 1\<rparr>)"
proof -
  let ?pre = "case argv_output w of
           None \<Rightarrow> ret ()
         | Some out \<Rightarrow>
             if out = [] then ret ()
             else and_then (existsSync w (path_dirname out)) (\<lambda>ex.
                if \<not> ex then call w (MkdirSync (path_dirname out)) () else ret ())"
  have go: "main w start =
             and_then (getCredentials w) (\<lambda>(username, password).
               and_then (zip_ext w (argv_output w)) (\<lambda>rbzPath.
                 sign w rbzPath username password)) s1"
    if "?pre start = (Returned (), s1)" for s1
    unfolding main_def Let_def
    by (subst and_then_def) (simp only: that prod.case outcome.case)
  have stop: "main w start = (Thrown e, s1)" if "?pre start = (Thrown e, s1)" for e s1
    unfolding main_def Let_def
    by (subst and_then_def) (simp only: that prod.case outcome.case)
  show ?thesis
  proof (cases "argv_output w")
    case None
    then have "?pre start = (Returned (), start)" by (simp add: ret_def)
    from go [OF this] show ?thesis by (intro ready [of start]) (simp_all add: start_def)
  next
    case (Some a)
    show ?thesis
    proof (cases "a = [] \<or> fs_existsSync w 0 (path_dirname a)")
      case True
      with Some have "?pre start = (Returned (), start)"
        by (auto simp add: existsSync_def and_then_def ret_def start_def)
      from go [OF this] show ?thesis by (intro ready [of start]) (simp_all add: start_def)
    next
      case False
      show ?thesis
      proof (cases "faults w 0 [] (MkdirSync (path_dirname a))")
        case None
        with Some False
        have "?pre start =
                (Returned (), \<lparr>trace = [Call (MkdirSync (path_dirname a)) None], tick = 1\<rparr>)"
          by (simp add: existsSync_def and_then_def call_def start_def)
        from go [OF this] show ?thesis
          by (intro ready [of "\<lparr>trace = [Call (MkdirSync (path_dirname a)) None], tick = 1\<rparr>"])
             simp_all
      next
        case (Some e)
        with \<open>argv_output w = Some a\<close> False
        have "?pre start =
                (Thrown e, \<lparr>trace = [Call (MkdirSync (path_dirname a)) (Some e)], tick = 1\<rparr>)"
          by (simp add: existsSync_def and_then_def call_def start_def)
        from stop [OF this] show ?thesis by (rule mkdir_failed)
      qed
    qed
  qed
qed

lemma main_bad_env:
  assumes "argv_env w = Some env"
    and "dotenv_error w (if env = [] then ''.env'' else env) \<noteq> None \<or>
         falsy (process_env w ''EW_USERNAME'') \<or> falsy (process_env w ''EW_PASSWORD'')"
  shows "\<not> launched (trace (snd (main w start)))"
    and "\<not> archived (trace (snd (main w start)))"
    and "fst (main w start) = Exited 1 \<or>
         (\<exists>e d. main w start =
            (Thrown e, \<lparr>trace = [Call (MkdirSync d) (Some e)], tick = 1\<rparr>))"
proof (atomize (full), cases rule: main_start [of w])
  case (ready s1)
  from getCredentials_bad_env [OF assms, of s1] obtain msg where
    "getCredentials w s1 =
       (Exited 1, s1\<lparr>trace := trace s1 @ [Dotenv (if env = [] then ''.env'' else env),
                                           Console Error msg]\<rparr>)"
    by blast
  with ready(2) have "main w start =
       (Exited 1, s1\<lparr>trace := trace s1 @ [Dotenv (if env = [] then ''.env'' else env),
                                           Console Error msg]\<rparr>)"
    by (simp add: and_then_def)
  with ready(1) show "\<not> launched (trace (snd (main w start))) \<and>
    \<not> archived (trace (snd (main w start))) \<and>
    (fst (main w start) = Exited 1 \<or>
     (\<exists>e d. main w start = (Thrown e, \<lparr>trace = [Call (MkdirSync d) (Some e)], tick = 1\<rparr>)))"
    by (auto simp add: launched_def archived_def)
next
  case (mkdir_failed e d)
  then show "\<not> launched (trace (snd (main w start))) \<and>
    \<not> archived (trace (snd (main w start))) \<and>
    (fst (main w start) = Exited 1 \<or>
     (\<exists>e d. main w start = (Thrown e, \<lparr>trace = [Call (MkdirSync d) (Some e)], tick = 1\<rparr>)))"
    by (simp add: launched_def archived_def)
qed

lemma main_launched_signs:
  assumes "argv_env w = None" and "launched (trace (snd (main w start)))"
  shows "\<exists>out s1. argv_output w = Some out \<and>
           main w start =
             sign w (rbzPath_of out)
               (if argv_username w = [] then prompt_answer w ''username''
                else Some (argv_username w))
               (if argv_password w = [] then prompt_answer w ''password''
                else Some (argv_password w)) s1"
proof -
  have run: "main w start = (fst (main w start), snd (main w start))" by simp
  from run show ?thesis
  proof (cases rule: main_cases)
    case early
    with assms(2) show ?thesis using setup_not_launched by blast
  next
    case (signing p username password s0 s1)
    from signing(2) getCredentials_no_env [OF assms(1), of s0]
    have "username = (if argv_username w = [] then prompt_answer w ''username''
                      else Some (argv_username w))"
      and "password = (if argv_password w = [] then prompt_answer w ''password''
                       else Some (argv_password w))"
      by simp_all
    moreover from signing(4) have "main w start = sign w (rbzPath_of p) username password s1"
      by simp
    ultimately show ?thesis using signing(1) by blast
  qed
qed

text \<open>
  C9, as stated, fails. The claim is that no run enters the signing flow with a missing
  username or password. In the run below no flag is given, \<^verbatim>\<open>--env\<close> is absent and
  the operator cancels both prompts: \<^verbatim>\<open>getCredentials\<close> returns two undefined values,
  the browser is launched, and the undefined username is passed to the \<^verbatim>\<open>type\<close> call
  of the e-mail field, where the driver throws.
\<close>

theorem run_signs_without_credentials:
  "fst (getCredentials no_input_world start) = Returned (None, None) \<and>
   launched (trace (snd (main no_input_world start))) \<and>
   Call (TypeText (Handle ''e-mail input'' ''input[id=email]'') None) (Some type_error)
     \<in> set (trace (snd (main no_input_world start)))"
  by (simp add: run_defs path_defs no_input_world_def demo_world_def launched_def)

text \<open>
  C9, amended. The credentials stop a run only when \<^verbatim>\<open>--env\<close> is given and the
  environment file cannot be loaded or lacks a non-empty \<^verbatim>\<open>EW_USERNAME\<close> or
  \<^verbatim>\<open>EW_PASSWORD\<close>: the run then ends without writing the archive and without
  launching the browser, with exit code 1 unless creating the output directory has
  already thrown. Without \<^verbatim>\<open>--env\<close>, \<^verbatim>\<open>getCredentials\<close> always returns: each field is
  its flag or, when the flag is empty, whatever the prompt gave, also an empty or
  undefined value; and every run that launches the browser has called \<^verbatim>\<open>sign\<close> with
  exactly these two values.
\<close>

theorem credentials_stop_the_run_only_with_env:
  "(argv_env w = Some env \<and>
    (dotenv_error w (if env = [] then ''.env'' else env) \<noteq> None \<or>
     falsy (process_env w ''EW_USERNAME'') \<or> falsy (process_env w ''EW_PASSWORD'')) \<longrightarrow>
      \<not> launched (trace (snd (main w start))) \<and>
      \<not> archived (trace (snd (main w start))) \<and>
      (fst (main w start) = Exited 1 \<or>
       (\<exists>e d. main w start =
          (Thrown e, \<lparr>trace = [Call (MkdirSync d) (Some e)], tick = 1\<rparr>)))) \<and>
   (argv_env w = None \<longrightarrow>
      fst (getCredentials w s) =
        Returned
          (if argv_username w = [] then prompt_answer w ''username''
           else Some (argv_username w),
           if argv_password w = [] then prompt_answer w ''password''
           else Some (argv_password w)) \<and>
      (launched (trace (snd (main w start))) \<longrightarrow>
         (\<exists>out s1. argv_output w = Some out \<and>
            main w start =
              sign w (rbzPath_of out)
                (if argv_username w = [] then prompt_answer w ''username''
                 else Some (argv_username w))
                (if argv_password w = [] then prompt_answer w ''password''
                 else Some (argv_password w)) s1)))"
  using main_bad_env [of w env] getCredentials_no_env [of w s] main_launched_signs [of w]
  by blast

theorem credentials_stop_the_run_only_with_env_witness:
  "fst (main (demo_world\<lparr>argv_env := Some ''ci.env''\<rparr>) start) = Exited 1 \<and>
   \<not> launched (trace (snd (main (demo_world\<lparr>argv_env := Some ''ci.env''\<rparr>) start))) \<and>
   \<not> archived (trace (snd (main (demo_world\<lparr>argv_env := Some ''ci.env''\<rparr>) start))) \<and>
   fst (getCredentials no_input_world start) = Returned (None, None) \<and>
   (\<exists>out s1. argv_output no_input_world = Some out \<and>
      main no_input_world start = sign no_input_world (rbzPath_of out) None None s1)"
proof -
  let ?w = "demo_world\<lparr>argv_env := Some ''ci.env''\<rparr>"
  have a: "argv_env ?w = Some ''ci.env'' \<and>
    (dotenv_error ?w (if ''ci.env'' = [] then ''.env'' else ''ci.env'') \<noteq> None \<or>
     falsy (process_env ?w ''EW_USERNAME'') \<or> falsy (process_env ?w ''EW_PASSWORD''))"
    by (simp add: demo_world_def falsy_def)
  have exit: "fst (main ?w start) = Exited 1"
    by (simp add: run_defs path_defs demo_world_def)
  from credentials_stop_the_run_only_with_env [of ?w "''ci.env''"] a
  have stopped: "\<not> launched (trace (snd (main ?w start))) \<and>
    \<not> archived (trace (snd (main ?w start)))"
    by blast
  have b: "argv_env no_input_world = None"
    by (simp add: no_input_world_def demo_world_def)
  have l: "launched (trace (snd (main no_input_world start)))"
    by (simp add: run_defs path_defs no_input_world_def demo_world_def launched_def)
  have flags: "argv_username no_input_world = []" "argv_password no_input_world = []"
    "prompt_answer no_input_world ''username'' = None"
    "prompt_answer no_input_world ''password'' = None"
    by (simp_all add: no_input_world_def demo_world_def)
  from credentials_stop_the_run_only_with_env [of no_input_world "''ci.env''" start] b l
  have "fst (getCredentials no_input_world start) =
          Returned
            (if argv_username no_input_world = [] then prompt_answer no_input_world ''username''
             else Some (argv_username no_input_world),
             if argv_password no_input_world = [] then prompt_answer no_input_world ''password''
             else Some (argv_password no_input_world)) \<and>
        (\<exists>out s1. argv_output no_input_world = Some out \<and>
            main no_input_world start =
              sign no_input_world (rbzPath_of out)
                (if argv_username no_input_world = [] then prompt_answer no_input_world ''username''
                 else Some (argv_username no_input_world))
                (if argv_password no_input_world = [] then prompt_answer no_input_world ''password''
                 else Some (argv_password no_input_world)) s1)"
    by blast
  with flags have "fst (getCredentials no_input_world start) = Returned (None, None) \<and>
   (\<exists>out s1. argv_output no_input_world = Some out \<and>
      main no_input_world start = sign no_input_world (rbzPath_of out) None None s1)"
    by simp
  with exit stopped show ?thesis by blast
qed

subsection \<open>C7: a source path that is not a directory\<close>

text \<open>
  C7. The run below is given a source path that does not exist. \<^verbatim>\<open>zip\<close> reports it on
  the error stream and the process ends before the browser is launched, but with exit
  code 0, the code of a successful run, where the other fatal setup errors of the script
  (\<^verbatim>\<open>getCredentials\<close>, \<^verbatim>\<open>search\<close>) use 1.
\<close>

theorem invalid_path_exits_with_zero:
  \<open>main missing_dir_world start =
     (Exited 0,
      \<lparr>trace = [Console Error ''The target path "my_extension" is not a directory''],
       tick = 0\<rparr>)\<close>
  by (simp add: run_defs path_defs missing_dir_world_def demo_world_def)

subsection \<open>C10: the archive path needs an output path\<close>

lemma zip_None:
  "fst (zip_ext w None s) \<noteq> Returned r"
  "fs_existsSync w (tick s) (argv_path w) \<and> fs_isDirectory w (tick s) (argv_path w) \<Longrightarrow>
     zip_ext w None s = (Thrown invalid_arg_type, s)"
  by (simp_all add: zip_ext_def existsSync_def lstatSync_isDirectory_def io_defs)

lemma main_Returned_output:
  assumes "fst (main w start) = Returned ()"
  shows "argv_output w \<noteq> None"
proof -
  have run: "main w start = (fst (main w start), snd (main w start))" by simp
  from run show ?thesis
  proof (cases rule: main_cases)
    case early
    with assms show ?thesis by simp
  next
    case (signing p username password s0 s1)
    then show ?thesis by simp
  qed
qed

text \<open>
  C10. Without an output path \<^verbatim>\<open>zip\<close> never returns an archive path: when the source
  folder is a directory it throws the \<^verbatim>\<open>TypeError\<close> of \<^verbatim>\<open>path.dirname(undefined)\<close>
  (and otherwise it has already ended the process). So every run in which \<^verbatim>\<open>main\<close>
  returns was given an output path.
\<close>

theorem zip_requires_output:
  "(\<forall>r. fst (zip_ext w None s) \<noteq> Returned r) \<and>
   (fs_existsSync w (tick s) (argv_path w) \<and> fs_isDirectory w (tick s) (argv_path w) \<longrightarrow>
      zip_ext w None s = (Thrown invalid_arg_type, s)) \<and>
   (fst (main w start) = Returned () \<longrightarrow> argv_output w \<noteq> None)"
  using zip_None [of w s] main_Returned_output [of w] by blast

theorem zip_requires_output_witness:
  "zip_ext demo_world None start = (Thrown invalid_arg_type, start) \<and>
   fst (main demo_world start) = Returned () \<and>
   argv_output demo_world \<noteq> None \<and>
   fst (main (demo_world\<lparr>argv_output := None\<rparr>) start) = Thrown invalid_arg_type"
proof -
  have fs: "fs_existsSync demo_world (tick start) (argv_path demo_world) \<and>
            fs_isDirectory demo_world (tick start) (argv_path demo_world)"
    by (simp add: demo_world_def)
  have ret: "fst (main demo_world start) = Returned ()"
    by (simp add: run_defs path_defs demo_world_def)
  have thrown: "fst (main (demo_world\<lparr>argv_output := None\<rparr>) start) = Thrown invalid_arg_type"
    by (simp add: run_defs path_defs demo_world_def)
  from zip_requires_output [of demo_world start] fs ret thrown show ?thesis by blast
qed

end
